theory Spec2Isabelle
  imports Complex_Main
begin

section \<open>The transfer statement generator of \<^verbatim>\<open>init_scripts/transfers.py\<close>\<close>

text \<open>
  \<^verbatim>\<open>sync_transfers(source, target)\<close> fetches every row of the legacy table
  \<^verbatim>\<open>gebruiker\<close>, prints one cleanup statement and then, row by row, at most one
  \<^verbatim>\<open>insert into transfer\<close> statement. The model takes the fetched rows as its input and
  returns the printed lines in order, one list element per call of \<^verbatim>\<open>print\<close>.

  Conventions of the embedding:
  \<^item> a row is the tuple \<^verbatim>\<open>result\<close>; only the columns the function reads are kept:
    \<^verbatim>\<open>result[0]\<close>, \<^verbatim>\<open>result[3]\<close>, \<^verbatim>\<open>result[5]\<close> and \<^verbatim>\<open>result[6]\<close>;
  \<^item> \<^verbatim>\<open>result[3]\<close> is a Python \<^verbatim>\<open>str\<close>; a \<open>char\<close> stands for one code point below 256,
    so \<^verbatim>\<open>[1:]\<close> drops exactly one element;
  \<^item> \<^verbatim>\<open>result[5]\<close> and \<^verbatim>\<open>result[6]\<close> are finite numbers of one Python numeric type,
    \<^verbatim>\<open>float\<close> or \<^verbatim>\<open>Decimal\<close>, each embedded in \<open>rat\<close> by its exact value; the subtraction and
    the multiplication of that type, which round, are a parameter of the generator;
  \<^item> Python integers are unbounded: \<open>int\<close>.
\<close>

subsection \<open>Python primitives\<close>

text \<open>
  \<^verbatim>\<open>int(s)\<close> for a \<^verbatim>\<open>str\<close> in base 10, as CPython's \<^verbatim>\<open>PyLong_FromString\<close> reads it:
  leading white space, one optional sign, decimal digits with single underscores allowed
  between two digits, trailing white space, and nothing else. The result \<open>None\<close> is the
  \<^verbatim>\<open>ValueError\<close>.
\<close>

definition py_isspace :: "char \<Rightarrow> bool" where
  "py_isspace c \<longleftrightarrow>
     c \<in> set [CHR 0x09, CHR 0x0A, CHR 0x0B, CHR 0x0C, CHR 0x0D, CHR 0x20, CHR 0x85, CHR 0xA0]"

definition py_isdigit :: "char \<Rightarrow> bool" where
  "py_isdigit c \<longleftrightarrow> c \<in> set ''0123456789''"

definition digit_value :: "char \<Rightarrow> nat" where
  "digit_value c = of_char c - 48"

text \<open>
  The scanning loop over digits and underscores: \<open>prev\<close> is the character read last,
  \<open>digits\<close> counts the digits seen and \<open>z\<close> is their value so far. It stops at the first
  character that is neither; two underscores in a row and a trailing underscore are errors.
\<close>

fun scan_number :: "char \<Rightarrow> string \<Rightarrow> nat \<Rightarrow> nat \<Rightarrow> (nat \<times> nat \<times> string) option" where
  "scan_number prev [] digits z =
     (if prev = CHR ''_'' then None else Some (digits, z, []))"
| "scan_number prev (c # cs) digits z =
     (if c = CHR ''_'' then
        (if prev = CHR ''_'' then None else scan_number c cs digits z)
      else if py_isdigit c then scan_number c cs (Suc digits) (z * 10 + digit_value c)
      else if prev = CHR ''_'' then None
      else Some (digits, z, c # cs))"

text \<open>
  The default of \<^verbatim>\<open>sys.get_int_max_str_digits()\<close> (CPython 3.11 and later): a string with
  more digits raises \<^verbatim>\<open>ValueError\<close> as well.
\<close>

definition int_max_str_digits :: nat where
  "int_max_str_digits = 4300"

definition py_int :: "string \<Rightarrow> int option" where
  "py_int s =
     (let str = dropWhile py_isspace s;
          sign = (if take 1 str = ''-'' then - 1 else (1::int));
          str = (if take 1 str = ''+'' \<or> take 1 str = ''-'' then drop 1 str else str)
      in if take 1 str = ''_'' then None
         else case scan_number (CHR 0x00) str 0 0 of
                None \<Rightarrow> None
              | Some (digits, z, rest) \<Rightarrow>
                  if int_max_str_digits < digits then None
                  else if digits = 0 then None
                  else if dropWhile py_isspace rest \<noteq> [] then None
                  else Some (sign * int z))"

text \<open>\<^verbatim>\<open>int(x)\<close> for a number: the fractional part is dropped, towards zero.\<close>

definition py_int_of_num :: "rat \<Rightarrow> int" where
  "py_int_of_num x = (if 0 \<le> x then \<lfloor>x\<rfloor> else \<lceil>x\<rceil>)"

subsection \<open>The arithmetic of the numeric columns\<close>

text \<open>
  \<^verbatim>\<open>(balance - fine)*100\<close> is computed in the arithmetic of the columns' Python type, and
  each operation rounds its result to the precision of that type. An \<open>arithmetic\<close> gives
  the value of \<^verbatim>\<open>x - y\<close> and of \<^verbatim>\<open>x * n\<close> (\<open>n\<close> an \<^verbatim>\<open>int\<close>) as the type computes them. The
  generator takes it as a parameter, so that what is proved for every arithmetic holds
  for both types. Results are finite values: a result beyond the range of the type (an
  infinite \<^verbatim>\<open>float\<close>, an exception of \<^verbatim>\<open>Decimal\<close>) makes the run raise and is not modelled.
\<close>

record arithmetic =
  num_sub :: "rat \<Rightarrow> rat \<Rightarrow> rat"
  num_mul :: "rat \<Rightarrow> int \<Rightarrow> rat"

text \<open>
  Rounding to \<open>p\<close> digits in base \<open>b\<close>, to nearest with ties to even, as IEEE 754 binary64
  (\<open>b = 2\<close>, \<open>p = 53\<close>) and the default context of \<^verbatim>\<open>decimal\<close> (\<open>b = 10\<close>, \<open>p = 28\<close>,
  \<^verbatim>\<open>ROUND_HALF_EVEN\<close>) do it: \<open>x\<close> is scaled by the power \<open>e\<close> of the base that leaves \<open>p\<close>
  digits before the point, rounded to an integer, and scaled back. The exponent is looked
  for between the least and the greatest exponent of the type; for a magnitude below that
  range the least one is taken (gradual underflow). A magnitude above the range has no
  finite result and is outside the model.
\<close>

definition round_half_even :: "rat \<Rightarrow> int" where
  "round_half_even x =
     (let n = \<lfloor>x\<rfloor>; d = x - of_int n
      in if d < 1 / 2 then n else if 1 / 2 < d then n + 1 else if even n then n else n + 1)"

definition normalised :: "nat \<Rightarrow> nat \<Rightarrow> rat \<Rightarrow> int \<Rightarrow> bool" where
  "normalised b p x e \<longleftrightarrow>
     of_nat b ^ (p - 1) * of_nat b powi e \<le> \<bar>x\<bar> \<and> \<bar>x\<bar> < of_nat b ^ p * of_nat b powi e"

definition exponent_of :: "nat \<Rightarrow> nat \<Rightarrow> int \<Rightarrow> int \<Rightarrow> rat \<Rightarrow> int" where
  "exponent_of b p lo hi x =
     (case List.find (normalised b p x) [lo..hi] of Some e \<Rightarrow> e | None \<Rightarrow> lo)"

definition round_to :: "nat \<Rightarrow> nat \<Rightarrow> int \<Rightarrow> int \<Rightarrow> rat \<Rightarrow> rat" where
  "round_to b p lo hi x =
     (let e = exponent_of b p lo hi x
      in of_int (round_half_even (x / of_nat b powi e)) * of_nat b powi e)"

text \<open>
  \<^verbatim>\<open>float\<close>: both operations round to binary64; the \<^verbatim>\<open>int\<close> factor is converted to a
  \<^verbatim>\<open>float\<close> first.
\<close>

definition py_float :: arithmetic where
  "py_float =
     \<lparr>num_sub = (\<lambda>x y. round_to 2 53 (- 1074) 971 (x - y)),
      num_mul = (\<lambda>x n. round_to 2 53 (- 1074) 971
                   (x * round_to 2 53 (- 1074) 971 (of_int n)))\<rparr>"

text \<open>
  \<^verbatim>\<open>Decimal\<close>: both operations round to the 28 digits of the default context; the \<^verbatim>\<open>int\<close>
  factor is converted exactly.
\<close>

definition py_decimal :: arithmetic where
  "py_decimal =
     \<lparr>num_sub = (\<lambda>x y. round_to 10 28 (- 1000026) 999972 (x - y)),
      num_mul = (\<lambda>x n. round_to 10 28 (- 1000026) 999972 (x * of_int n))\<rparr>"

text \<open>
  \<^verbatim>\<open>str(i)\<close> for an integer, as an f-string field \<^verbatim>\<open>{i}\<close> formats it. The values printed
  here come from an id column and from a balance of the database's numeric type, far
  below the length at which \<^verbatim>\<open>str\<close> itself would refuse the conversion.
\<close>

definition digit_char :: "nat \<Rightarrow> char" where
  "digit_char d = ''0123456789'' ! d"

fun nat_digits :: "nat \<Rightarrow> string" where
  "nat_digits n =
     (if n < 10 then [digit_char n] else nat_digits (n div 10) @ [digit_char (n mod 10)])"

declare nat_digits.simps [simp del]

definition py_str :: "int \<Rightarrow> string" where
  "py_str i = (if i < 0 then CHR ''-'' # nat_digits (nat (- i)) else nat_digits (nat i))"

text \<open>The number that a string of decimal digits denotes, to read \<open>nat_digits\<close> back.\<close>

definition digits_nat :: "string \<Rightarrow> nat" where
  "digits_nat cs = foldl (\<lambda>z c. z * 10 + digit_value c) 0 cs"

definition startswith :: "string \<Rightarrow> string \<Rightarrow> bool" where
  "startswith s p \<longleftrightarrow> take (length p) s = p"

subsection \<open>Rows and the generator\<close>

record gebruiker =
  row_id :: int
  account_label :: string
  balance :: rat
  fine :: rat

definition cleanup_statement :: string where
  "cleanup_statement = ''DELETE FROM transfer where createdAt='2022-07-01 00:00:00.000000';''"

text \<open>
  The body of the \<^verbatim>\<open>for\<close> loop for one row: the lines it prints. Each \<^verbatim>\<open>continue\<close>,
  and a label that starts with neither \<^verbatim>\<open>g\<close> nor \<^verbatim>\<open>e\<close>, prints nothing.
\<close>

definition sync_row :: "arithmetic \<Rightarrow> gebruiker \<Rightarrow> string list" where
  "sync_row ar result =
     (let id = row_id result;
          account_number = drop 1 (account_label result)
      in case py_int account_number of
           None \<Rightarrow> []
         | Some n \<Rightarrow>
             if account_number = ''OUDESANNEVANDERLINDEN''
                \<or> (n < 1000 \<and> startswith (account_label result) ''g'') then []
             else
               let balance = py_int_of_num (num_mul ar (num_sub ar (balance result) (fine result)) 100)
               in if startswith (account_label result) ''g'' then
                    (if 0 \<le> balance then
                       [''insert into transfer(`version`, createdAt, updatedAt, fromId, toId, amount, description) SELECT 0, '2022-07-01 00:00:00.000000', '2022-07-01 00:00:00.000000', NULL, g.userId, '' @ py_str balance @ '', 'Initial transfer from SuSOS' FROM gewis_user AS g WHERE g.gewisId = '' @ account_number @ '';'']
                     else
                       let balance = balance * (- 1)
                       in [''insert into transfer(`version`, createdAt, updatedAt, fromId, toId, amount, description) SELECT 0, '2022-07-01 00:00:00.000000', '2022-07-01 00:00:00.000000', g.userId, NULL, '' @ py_str balance @ '', 'Initial transfer from SuSOS' FROM gewis_user AS g WHERE g.gewisId = '' @ account_number @ '';''])
                  else if startswith (account_label result) ''e'' then
                    (if 0 \<le> balance then
                       [''insert into transfer(`version`, createdAt, updatedAt, fromId, toId, amount, description) SELECT 0, '2022-07-01 00:00:00.000000', '2022-07-01 00:00:00.000000', NULL, u.id, '' @ py_str balance @ '', 'Initial transfer from SuSOS' FROM user AS u WHERE u.id = '' @ py_str id @ '';'']
                     else
                       let balance = balance * (- 1)
                       in [''insert into transfer(`version`, createdAt, updatedAt, fromId, toId, amount, description) SELECT 0, '2022-07-01 00:00:00.000000', '2022-07-01 00:00:00.000000', u.id, NULL, '' @ py_str balance @ '', 'Initial transfer from SuSOS' FROM user AS u WHERE u.id = '' @ py_str id @ '';''])
                  else [])"

fun sync_rows :: "arithmetic \<Rightarrow> gebruiker list \<Rightarrow> string list" where
  "sync_rows ar [] = []"
| "sync_rows ar (result # results) = sync_row ar result @ sync_rows ar results"

definition sync_transfers :: "arithmetic \<Rightarrow> gebruiker list \<Rightarrow> string list" where
  "sync_transfers ar results = cleanup_statement # sync_rows ar results"

text \<open>
  Names for three intermediate values of the loop body: the account number, the value of
  \<^verbatim>\<open>(balance - fine)*100\<close> as the arithmetic computes it, and the integer \<^verbatim>\<open>int\<close> makes of it.
\<close>

definition account_number :: "gebruiker \<Rightarrow> string" where
  "account_number result = drop 1 (account_label result)"

definition computed_net :: "arithmetic \<Rightarrow> gebruiker \<Rightarrow> rat" where
  "computed_net ar result = num_mul ar (num_sub ar (balance result) (fine result)) 100"

definition net_amount :: "arithmetic \<Rightarrow> gebruiker \<Rightarrow> int" where
  "net_amount ar result = py_int_of_num (computed_net ar result)"

subsection \<open>The generator without the sentinel comparison\<close>

text \<open>
  \<open>sync_row\<close> with the test \<^verbatim>\<open>account_number == "OUDESANNEVANDERLINDEN"\<close> taken out of the
  second \<^verbatim>\<open>if\<close>, and nothing else changed.
\<close>

definition sync_row_no_sentinel :: "arithmetic \<Rightarrow> gebruiker \<Rightarrow> string list" where
  "sync_row_no_sentinel ar result =
     (let id = row_id result;
          account_number = drop 1 (account_label result)
      in case py_int account_number of
           None \<Rightarrow> []
         | Some n \<Rightarrow>
             if n < 1000 \<and> startswith (account_label result) ''g'' then []
             else
               let balance = py_int_of_num (num_mul ar (num_sub ar (balance result) (fine result)) 100)
               in if startswith (account_label result) ''g'' then
                    (if 0 \<le> balance then
                       [''insert into transfer(`version`, createdAt, updatedAt, fromId, toId, amount, description) SELECT 0, '2022-07-01 00:00:00.000000', '2022-07-01 00:00:00.000000', NULL, g.userId, '' @ py_str balance @ '', 'Initial transfer from SuSOS' FROM gewis_user AS g WHERE g.gewisId = '' @ account_number @ '';'']
                     else
                       let balance = balance * (- 1)
                       in [''insert into transfer(`version`, createdAt, updatedAt, fromId, toId, amount, description) SELECT 0, '2022-07-01 00:00:00.000000', '2022-07-01 00:00:00.000000', g.userId, NULL, '' @ py_str balance @ '', 'Initial transfer from SuSOS' FROM gewis_user AS g WHERE g.gewisId = '' @ account_number @ '';''])
                  else if startswith (account_label result) ''e'' then
                    (if 0 \<le> balance then
                       [''insert into transfer(`version`, createdAt, updatedAt, fromId, toId, amount, description) SELECT 0, '2022-07-01 00:00:00.000000', '2022-07-01 00:00:00.000000', NULL, u.id, '' @ py_str balance @ '', 'Initial transfer from SuSOS' FROM user AS u WHERE u.id = '' @ py_str id @ '';'']
                     else
                       let balance = balance * (- 1)
                       in [''insert into transfer(`version`, createdAt, updatedAt, fromId, toId, amount, description) SELECT 0, '2022-07-01 00:00:00.000000', '2022-07-01 00:00:00.000000', u.id, NULL, '' @ py_str balance @ '', 'Initial transfer from SuSOS' FROM user AS u WHERE u.id = '' @ py_str id @ '';''])
                  else [])"

fun sync_rows_no_sentinel :: "arithmetic \<Rightarrow> gebruiker list \<Rightarrow> string list" where
  "sync_rows_no_sentinel ar [] = []"
| "sync_rows_no_sentinel ar (result # results) =
     sync_row_no_sentinel ar result @ sync_rows_no_sentinel ar results"

definition sync_transfers_no_sentinel :: "arithmetic \<Rightarrow> gebruiker list \<Rightarrow> string list" where
  "sync_transfers_no_sentinel ar results =
     cleanup_statement # sync_rows_no_sentinel ar results"

subsection \<open>The generated transfer statement, field by field\<close>

text \<open>
  The specification describes an emitted line by its fields: \<open>fromId\<close> and \<open>toId\<close>, each
  either \<^verbatim>\<open>NULL\<close> or the id of the counterparty, the \<open>amount\<close>, and the way the counterparty
  is found: in \<^verbatim>\<open>gewis_user\<close> by the text compared with \<^verbatim>\<open>g.gewisId\<close>, or in \<^verbatim>\<open>user\<close> by
  \<^verbatim>\<open>u.id\<close>. \<open>insert_text\<close> writes such a description out in the output grammar, so that a
  printed line can be compared with it character by character.
\<close>

datatype counterparty = Gewis_user string | User int

datatype id_expr = Null | Resolved_id

record transfer_stmt =
  fromId :: id_expr
  toId :: id_expr
  amount :: int
  resolved_by :: counterparty

fun id_text :: "counterparty \<Rightarrow> id_expr \<Rightarrow> string" where
  "id_text c Null = ''NULL''"
| "id_text (Gewis_user a) Resolved_id = ''g.userId''"
| "id_text (User i) Resolved_id = ''u.id''"

fun lookup_text :: "counterparty \<Rightarrow> string" where
  "lookup_text (Gewis_user a) = ''gewis_user AS g WHERE g.gewisId = '' @ a"
| "lookup_text (User i) = ''user AS u WHERE u.id = '' @ py_str i"

definition insert_text :: "transfer_stmt \<Rightarrow> string" where
  "insert_text s =
     ''insert into transfer(`version`, createdAt, updatedAt, fromId, toId, amount, description) SELECT 0, '2022-07-01 00:00:00.000000', '2022-07-01 00:00:00.000000', ''
       @ id_text (resolved_by s) (fromId s) @ '', '' @ id_text (resolved_by s) (toId s) @ '', ''
       @ py_str (amount s) @ '', 'Initial transfer from SuSOS' FROM ''
       @ lookup_text (resolved_by s) @ '';''"

text \<open>
  The rows the specification calls qualifying: the suffix parses, the row is not excluded
  by the sentinel and low-number test, and the type tag is \<^verbatim>\<open>g\<close> or \<^verbatim>\<open>e\<close>.
\<close>

definition passes_filters :: "gebruiker \<Rightarrow> bool" where
  "passes_filters result \<longleftrightarrow>
     (case py_int (account_number result) of
        None \<Rightarrow> False
      | Some n \<Rightarrow>
          \<not> (account_number result = ''OUDESANNEVANDERLINDEN''
             \<or> (n < 1000 \<and> startswith (account_label result) ''g'')))"

definition qualifying :: "gebruiker \<Rightarrow> bool" where
  "qualifying result \<longleftrightarrow>
     passes_filters result
     \<and> (startswith (account_label result) ''g'' \<or> startswith (account_label result) ''e'')"

definition counterparty_of :: "gebruiker \<Rightarrow> counterparty" where
  "counterparty_of result =
     (if startswith (account_label result) ''g'' then Gewis_user (account_number result)
      else User (row_id result))"


section \<open>Properties\<close>

subsection \<open>A printed statement determines its fields\<close>

text \<open>
  \<open>py_str\<close> and \<open>insert_text\<close> are injective: two descriptions with the same text are equal,
  so the fields of a printed insert statement can be read off its text.
\<close>

lemma below_ten: "d < 10 \<Longrightarrow> d \<in> {0, 1, 2, 3, 4, 5, 6, 7, 8, 9::nat}"
  by auto

lemma digit_char_isdigit: "d < 10 \<Longrightarrow> py_isdigit (digit_char d)"
  by (drule below_ten) (auto simp: digit_char_def py_isdigit_def)

lemma digit_value_digit_char: "d < 10 \<Longrightarrow> digit_value (digit_char d) = d"
  by (drule below_ten) (auto simp: digit_char_def digit_value_def)

lemma nat_digits_isdigit: "c \<in> set (nat_digits n) \<Longrightarrow> py_isdigit c"
proof (induction n rule: nat_digits.induct)
  case (1 n)
  show ?case
  proof (cases "n < 10")
    case True
    with "1.prems" have "c = digit_char n" by (subst (asm) nat_digits.simps) simp
    with True show ?thesis by (simp add: digit_char_isdigit)
  next
    case False
    with "1.prems" have "c \<in> set (nat_digits (n div 10)) \<or> c = digit_char (n mod 10)"
      by (subst (asm) nat_digits.simps) auto
    then show ?thesis
    proof
      assume "c \<in> set (nat_digits (n div 10))"
      with False show ?thesis by (rule "1.IH")
    next
      assume "c = digit_char (n mod 10)"
      then show ?thesis by (simp add: digit_char_isdigit)
    qed
  qed
qed

lemma digits_nat_nat_digits: "digits_nat (nat_digits n) = n"
proof (induction n rule: nat_digits.induct)
  case (1 n)
  show ?case
  proof (cases "n < 10")
    case True
    then show ?thesis
      by (subst nat_digits.simps) (simp add: digits_nat_def digit_value_digit_char)
  next
    case False
    then have "digits_nat (nat_digits (n div 10)) = n div 10" by (rule 1)
    with False show ?thesis
      by (subst nat_digits.simps) (simp add: digits_nat_def digit_value_digit_char)
  qed
qed

lemma nat_digits_inj: "nat_digits m = nat_digits n \<Longrightarrow> m = n"
  by (metis digits_nat_nat_digits)

lemma py_str_no_comma: "CHR '','' \<notin> set (py_str i)"
proof
  assume "CHR '','' \<in> set (py_str i)"
  then have "CHR '','' \<in> set (nat_digits (nat (- i))) \<or> CHR '','' \<in> set (nat_digits (nat i))"
    by (auto simp: py_str_def split: if_splits)
  then have "py_isdigit (CHR '','')" by (auto dest: nat_digits_isdigit)
  then show False by (simp add: py_isdigit_def)
qed

lemma nat_digits_no_minus: "CHR ''-'' # cs \<noteq> nat_digits n"
proof
  assume "CHR ''-'' # cs = nat_digits n"
  then have "CHR ''-'' \<in> set (nat_digits n)" by (metis list.set_intros(1))
  then have "py_isdigit (CHR ''-'')" by (rule nat_digits_isdigit)
  then show False by (simp add: py_isdigit_def)
qed

lemma py_str_inj: "py_str i = py_str j \<Longrightarrow> i = j"
proof -
  assume eq: "py_str i = py_str j"
  show ?thesis
  proof (cases "i < 0"; cases "j < 0")
    assume "i < 0" "j < 0"
    with eq have "nat (- i) = nat (- j)" by (auto simp: py_str_def dest: nat_digits_inj)
    with \<open>i < 0\<close> \<open>j < 0\<close> show ?thesis by simp
  next
    assume "i < 0" "\<not> j < 0"
    with eq nat_digits_no_minus show ?thesis by (simp add: py_str_def)
  next
    assume "\<not> i < 0" "j < 0"
    with eq nat_digits_no_minus [of "nat_digits (nat (- j))" "nat i"] show ?thesis
      by (simp add: py_str_def)
  next
    assume "\<not> i < 0" "\<not> j < 0"
    with eq have "nat i = nat j" by (auto simp: py_str_def dest: nat_digits_inj)
    with \<open>\<not> i < 0\<close> \<open>\<not> j < 0\<close> show ?thesis by simp
  qed
qed

lemma split_at_separator:
  "c \<notin> set u \<Longrightarrow> c \<notin> set v \<Longrightarrow> u @ c # x = v @ c # y \<Longrightarrow> u = v \<and> x = y"
proof (induction u arbitrary: v)
  case Nil
  then show ?case by (cases v) auto
next
  case (Cons a u)
  then show ?case by (cases v) auto
qed

lemma py_str_then_comma:
  assumes "py_str i @ CHR '','' # x = py_str j @ CHR '','' # y"
  shows "i = j \<and> x = y"
proof -
  from split_at_separator [OF py_str_no_comma py_str_no_comma assms] show ?thesis
    by (auto dest: py_str_inj)
qed

lemma id_text_no_comma: "CHR '','' \<notin> set (id_text c f)"
  by (cases c; cases f) simp_all

lemma id_text_inj: "id_text c f = id_text c f' \<Longrightarrow> f = f'"
  by (cases c; cases f; cases f') simp_all

lemma lookup_text_inj: "lookup_text c = lookup_text c' \<Longrightarrow> c = c'"
  by (cases c; cases c') (auto dest: py_str_inj)

lemma insert_text_inj:
  assumes "insert_text s = insert_text s'"
  shows "s = s'"
proof -
  let ?c = "resolved_by s" and ?c' = "resolved_by s'"
  from assms have 1: "id_text ?c (fromId s) @ CHR '','' # ('' '' @ id_text ?c (toId s) @ '', ''
        @ py_str (amount s) @ '', 'Initial transfer from SuSOS' FROM '' @ lookup_text ?c @ '';'')
      = id_text ?c' (fromId s') @ CHR '','' # ('' '' @ id_text ?c' (toId s') @ '', ''
        @ py_str (amount s') @ '', 'Initial transfer from SuSOS' FROM '' @ lookup_text ?c' @ '';'')"
    by (simp add: insert_text_def)
  from split_at_separator [OF id_text_no_comma id_text_no_comma 1]
  have f: "id_text ?c (fromId s) = id_text ?c' (fromId s')"
    and 2: "id_text ?c (toId s) @ CHR '','' # ('' '' @ py_str (amount s)
          @ '', 'Initial transfer from SuSOS' FROM '' @ lookup_text ?c @ '';'')
        = id_text ?c' (toId s') @ CHR '','' # ('' '' @ py_str (amount s')
          @ '', 'Initial transfer from SuSOS' FROM '' @ lookup_text ?c' @ '';'')"
    by simp_all
  from split_at_separator [OF id_text_no_comma id_text_no_comma 2]
  have t: "id_text ?c (toId s) = id_text ?c' (toId s')"
    and 3: "py_str (amount s) @ CHR '','' # ('' 'Initial transfer from SuSOS' FROM ''
          @ lookup_text ?c @ '';'')
        = py_str (amount s') @ CHR '','' # ('' 'Initial transfer from SuSOS' FROM ''
          @ lookup_text ?c' @ '';'')"
    by simp_all
  from py_str_then_comma [OF 3]
  have a: "amount s = amount s'" and "lookup_text ?c = lookup_text ?c'"
    by simp_all
  then have c: "?c = ?c'" by (simp add: lookup_text_inj)
  from f t c have "fromId s = fromId s'" and "toId s = toId s'"
    by (auto dest: id_text_inj)
  with a c show ?thesis by simp
qed

subsection \<open>The branches of the loop body\<close>

lemma py_int_sentinel: "py_int ''OUDESANNEVANDERLINDEN'' = None"
  by (simp add: py_int_def py_isspace_def py_isdigit_def)

lemma parsed_not_sentinel:
  "py_int (account_number r) = Some n \<Longrightarrow> account_number r \<noteq> ''OUDESANNEVANDERLINDEN''"
  using py_int_sentinel by auto

lemma startswith_e_not_g: "startswith s ''e'' \<Longrightarrow> \<not> startswith s ''g''"
  by (auto simp: startswith_def)

lemma sync_row_unparsed: "py_int (account_number r) = None \<Longrightarrow> sync_row ar r = []"
  by (simp add: sync_row_def account_number_def)

lemma sync_row_sentinel: "account_number r = ''OUDESANNEVANDERLINDEN'' \<Longrightarrow> sync_row ar r = []"
  using py_int_sentinel by (simp add: sync_row_unparsed)

lemma sync_row_low_gewis:
  "py_int (account_number r) = Some n \<Longrightarrow> n < 1000 \<Longrightarrow> startswith (account_label r) ''g''
   \<Longrightarrow> sync_row ar r = []"
  by (simp add: sync_row_def account_number_def)

lemma sync_row_other_tag:
  "\<not> startswith (account_label r) ''g'' \<Longrightarrow> \<not> startswith (account_label r) ''e''
   \<Longrightarrow> sync_row ar r = []"
  by (simp add: sync_row_def Let_def split: option.split)

lemma sync_row_gewis_credit:
  assumes "py_int (account_number r) = Some n" and "1000 \<le> n"
    and "startswith (account_label r) ''g''" and "0 \<le> net_amount ar r"
  shows "sync_row ar r = [insert_text \<lparr>fromId = Null, toId = Resolved_id, amount = net_amount ar r,
            resolved_by = Gewis_user (account_number r)\<rparr>]"
  using assms parsed_not_sentinel [OF assms(1)]
  by (simp add: sync_row_def account_number_def net_amount_def computed_net_def insert_text_def)

lemma sync_row_gewis_debit:
  assumes "py_int (account_number r) = Some n" and "1000 \<le> n"
    and "startswith (account_label r) ''g''" and "net_amount ar r < 0"
  shows "sync_row ar r = [insert_text \<lparr>fromId = Resolved_id, toId = Null, amount = - net_amount ar r,
            resolved_by = Gewis_user (account_number r)\<rparr>]"
  using assms parsed_not_sentinel [OF assms(1)]
  by (simp add: sync_row_def account_number_def net_amount_def computed_net_def insert_text_def)

lemma sync_row_user_credit:
  assumes "py_int (account_number r) = Some n"
    and "startswith (account_label r) ''e''" and "0 \<le> net_amount ar r"
  shows "sync_row ar r = [insert_text \<lparr>fromId = Null, toId = Resolved_id, amount = net_amount ar r,
            resolved_by = User (row_id r)\<rparr>]"
  using assms parsed_not_sentinel [OF assms(1)] startswith_e_not_g [OF assms(2)]
  by (simp add: sync_row_def account_number_def net_amount_def computed_net_def insert_text_def)

lemma sync_row_user_debit:
  assumes "py_int (account_number r) = Some n"
    and "startswith (account_label r) ''e''" and "net_amount ar r < 0"
  shows "sync_row ar r = [insert_text \<lparr>fromId = Resolved_id, toId = Null, amount = - net_amount ar r,
            resolved_by = User (row_id r)\<rparr>]"
  using assms parsed_not_sentinel [OF assms(1)] startswith_e_not_g [OF assms(2)]
  by (simp add: sync_row_def account_number_def net_amount_def computed_net_def insert_text_def)

lemma sync_row_not_qualifying: "\<not> qualifying r \<Longrightarrow> sync_row ar r = []"
proof (cases "py_int (account_number r)")
  case None
  then show ?thesis by (rule sync_row_unparsed)
next
  case (Some n)
  assume nq: "\<not> qualifying r"
  show ?thesis
  proof (cases "n < 1000 \<and> startswith (account_label r) ''g''")
    case True
    with Some show ?thesis by (simp add: sync_row_low_gewis)
  next
    case False
    with Some nq parsed_not_sentinel [OF Some]
    have "\<not> startswith (account_label r) ''g''" and "\<not> startswith (account_label r) ''e''"
      by (auto simp: qualifying_def passes_filters_def)
    then show ?thesis by (rule sync_row_other_tag)
  qed
qed

lemma sync_row_qualifying_credit:
  assumes "qualifying r" and "0 \<le> net_amount ar r"
  shows "sync_row ar r = [insert_text \<lparr>fromId = Null, toId = Resolved_id, amount = net_amount ar r,
            resolved_by = counterparty_of r\<rparr>]"
proof -
  from assms(1) obtain n where n: "py_int (account_number r) = Some n"
    and low: "\<not> (n < 1000 \<and> startswith (account_label r) ''g'')"
    and tag: "startswith (account_label r) ''g'' \<or> startswith (account_label r) ''e''"
    by (auto simp: qualifying_def passes_filters_def split: option.splits)
  show ?thesis
  proof (cases "startswith (account_label r) ''g''")
    case True
    with n low assms(2) show ?thesis
      by (simp add: sync_row_gewis_credit counterparty_of_def)
  next
    case False
    with n tag assms(2) show ?thesis
      by (simp add: sync_row_user_credit counterparty_of_def)
  qed
qed

lemma sync_row_qualifying_debit:
  assumes "qualifying r" and "net_amount ar r < 0"
  shows "sync_row ar r = [insert_text \<lparr>fromId = Resolved_id, toId = Null, amount = - net_amount ar r,
            resolved_by = counterparty_of r\<rparr>]"
proof -
  from assms(1) obtain n where n: "py_int (account_number r) = Some n"
    and low: "\<not> (n < 1000 \<and> startswith (account_label r) ''g'')"
    and tag: "startswith (account_label r) ''g'' \<or> startswith (account_label r) ''e''"
    by (auto simp: qualifying_def passes_filters_def split: option.splits)
  show ?thesis
  proof (cases "startswith (account_label r) ''g''")
    case True
    with n low assms(2) show ?thesis
      by (simp add: sync_row_gewis_debit counterparty_of_def)
  next
    case False
    with n tag assms(2) show ?thesis
      by (simp add: sync_row_user_debit counterparty_of_def)
  qed
qed

lemma sync_row_line:
  assumes "l \<in> set (sync_row ar r)"
  shows "\<exists>s. l = insert_text s \<and> 0 \<le> amount s"
proof -
  have q: "qualifying r"
  proof (rule ccontr)
    assume "\<not> qualifying r"
    then have "sync_row ar r = []" by (rule sync_row_not_qualifying)
    with assms show False by simp
  qed
  show ?thesis
  proof (cases "0 \<le> net_amount ar r")
    case True
    with assms sync_row_qualifying_credit [OF q] show ?thesis
      by (intro exI [of _ "\<lparr>fromId = Null, toId = Resolved_id, amount = net_amount ar r,
            resolved_by = counterparty_of r\<rparr>"]) simp
  next
    case False
    with assms sync_row_qualifying_debit [OF q] show ?thesis
      by (intro exI [of _ "\<lparr>fromId = Resolved_id, toId = Null, amount = - net_amount ar r,
            resolved_by = counterparty_of r\<rparr>"]) simp
  qed
qed

lemma insert_text_not_cleanup: "insert_text s \<noteq> cleanup_statement"
  by (simp add: insert_text_def cleanup_statement_def)

lemma sync_rows_append: "sync_rows ar (xs @ ys) = sync_rows ar xs @ sync_rows ar ys"
  by (induction xs) simp_all

lemma sync_rows_line:
  "l \<in> set (sync_rows ar rs) \<Longrightarrow> \<exists>s. l = insert_text s \<and> 0 \<le> amount s"
  by (induction rs) (auto dest: sync_row_line)

lemma cleanup_not_in_sync_rows: "cleanup_statement \<notin> set (sync_rows ar rs)"
  using sync_rows_line [of cleanup_statement ar rs] insert_text_not_cleanup by metis



lemma sync_row_no_sentinel_eq: "sync_row_no_sentinel ar r = sync_row ar r"
proof (cases "py_int (drop 1 (account_label r))")
  case None
  then show ?thesis by (simp add: sync_row_no_sentinel_def sync_row_def)
next
  case (Some n)
  then have "drop 1 (account_label r) \<noteq> ''OUDESANNEVANDERLINDEN''"
    using py_int_sentinel by auto
  with Some show ?thesis by (simp add: sync_row_no_sentinel_def sync_row_def)
qed

lemma sync_rows_no_sentinel_eq: "sync_rows_no_sentinel ar rs = sync_rows ar rs"
  by (induction rs) (simp_all add: sync_row_no_sentinel_eq)

text \<open>Evaluation of the model on concrete rows.\<close>

lemmas parse_defs =
  py_int_def py_isspace_def py_isdigit_def digit_value_def int_max_str_digits_def
  startswith_def account_number_def

lemmas print_defs = py_str_def nat_digits.simps digit_char_def

subsection \<open>Rounding\<close>

text \<open>
  What \<open>round_to\<close> returns, without a search: when \<open>e\<close> is an exponent of the type that
  leaves \<open>p\<close> digits of \<open>x\<close> before the point, and \<open>m\<close> is the integer nearest to \<open>x\<close> scaled
  (the even one of two that are equally near), the result is \<open>m\<close> scaled back.
\<close>

lemma round_half_even_unique:
  assumes "\<bar>x - of_int m\<bar> < 1 / 2 \<or> (\<bar>x - of_int m\<bar> = 1 / 2 \<and> even m)"
  shows "round_half_even x = m"
proof (cases "of_int m \<le> x")
  case True
  with assms have "\<lfloor>x\<rfloor> = m" by (intro floor_unique) auto
  with assms True show ?thesis by (auto simp: round_half_even_def Let_def)
next
  case False
  with assms have f: "\<lfloor>x\<rfloor> = m - 1" by (intro floor_unique) auto
  from assms False
  have "1 / 2 < x - of_int (m - 1) \<or> (x - of_int (m - 1) = 1 / 2 \<and> odd (m - 1))"
    by auto
  with f show ?thesis by (auto simp: round_half_even_def Let_def)
qed

lemma normalised_unique:
  assumes b: "2 \<le> b" and "normalised b p x e" and "normalised b p x e'"
  shows "e' = e"
proof -
  have less: False if "normalised b p x i" and "normalised b p x j" and "i < j" for i j
  proof -
    from b have b1: "1 \<le> (of_nat b :: rat)" and b0: "0 < (of_nat b :: rat)" by simp_all
    have pp: "1 \<le> p"
    proof (rule ccontr)
      assume "\<not> 1 \<le> p"
      then have "p = 0" by simp
      with that(1) show False by (auto simp: normalised_def)
    qed
    have "\<bar>x\<bar> < of_nat b ^ p * of_nat b powi i"
      using that(1) by (simp add: normalised_def)
    also have "of_nat b ^ p * of_nat b powi i = of_nat b ^ (p - 1) * (of_nat b powi (i + 1) :: rat)"
      using b0 pp by (cases p) (simp_all add: power_int_add_1)
    also have "\<dots> \<le> of_nat b ^ (p - 1) * of_nat b powi j"
      using that(3) b1 b0 by (intro mult_left_mono power_int_increasing) simp_all
    also have "\<dots> \<le> \<bar>x\<bar>"
      using that(2) by (simp add: normalised_def)
    finally show False by simp
  qed
  from less [of e e'] less [of e' e] assms(2,3) show ?thesis
    by (cases e e' rule: linorder_cases) auto
qed

lemma find_the_only:
  assumes "P e" and "e \<in> set xs" and "\<And>e'. P e' \<Longrightarrow> e' = e"
  shows "List.find P xs = Some e"
  using assms(2)
proof (induction xs)
  case Nil
  then show ?case by simp
next
  case (Cons a xs)
  show ?case
  proof (cases "P a")
    case True
    with assms(3) show ?thesis by simp
  next
    case False
    with assms(1) have "a \<noteq> e" by auto
    with Cons False show ?thesis by simp
  qed
qed

lemma round_to_nearest:
  assumes "2 \<le> b" and "normalised b p x e" and "lo \<le> e" and "e \<le> hi"
    and "\<bar>x / of_nat b powi e - of_int m\<bar> < 1 / 2
         \<or> (\<bar>x / of_nat b powi e - of_int m\<bar> = 1 / 2 \<and> even m)"
  shows "round_to b p lo hi x = of_int m * of_nat b powi e"
proof -
  have "List.find (normalised b p x) [lo..hi] = Some e"
  proof (rule find_the_only)
    show "normalised b p x e" by (rule assms(2))
    show "e \<in> set [lo..hi]" using assms(3,4) by simp
    show "e' = e" if "normalised b p x e'" for e'
      using normalised_unique [OF assms(1,2) that] .
  qed
  then have "exponent_of b p lo hi x = e" by (simp add: exponent_of_def)
  then show ?thesis
    using round_half_even_unique [OF assms(5)] by (simp add: round_to_def)
qed

lemma round_to_value:
  assumes "2 \<le> b" and "lo \<le> e" and "e \<le> hi"
    and "of_nat b ^ (p - 1) * of_nat b powi e \<le> \<bar>x\<bar>" and "\<bar>x\<bar> < of_nat b ^ p * of_nat b powi e"
    and "\<bar>x - of_int m * of_nat b powi e\<bar> * 2 < of_nat b powi e
         \<or> (\<bar>x - of_int m * of_nat b powi e\<bar> * 2 = of_nat b powi e \<and> even m)"
  shows "round_to b p lo hi x = of_int m * of_nat b powi e"
proof -
  let ?s = "of_nat b powi e :: rat"
  from assms(1) have s: "0 < ?s" by simp
  have "x / ?s - of_int m = (x - of_int m * ?s) / ?s"
    using assms(1) by (simp add: diff_divide_distrib)
  then have d: "\<bar>x / ?s - of_int m\<bar> = \<bar>x - of_int m * ?s\<bar> / ?s"
    using s by (simp only: abs_divide abs_of_pos)
  have "\<bar>x / ?s - of_int m\<bar> < 1 / 2 \<or> (\<bar>x / ?s - of_int m\<bar> = 1 / 2 \<and> even m)"
    unfolding d using assms(1,6) s by (auto simp: field_simps)
  moreover have "normalised b p x e"
    using assms(4,5) by (simp add: normalised_def)
  ultimately show ?thesis
    using assms(1-3) by (intro round_to_nearest) simp_all
qed

text \<open>A number with \<open>p\<close> digits and an exponent of the type is its own rounding.\<close>

lemma round_to_exact:
  assumes "2 \<le> b" and "lo \<le> e" and "e \<le> hi" and "x = of_int m * of_nat b powi e"
    and "int b ^ (p - 1) \<le> \<bar>m\<bar>" and "\<bar>m\<bar> < int b ^ p"
  shows "round_to b p lo hi x = x"
proof -
  let ?s = "of_nat b powi e :: rat"
  from assms(1) have s: "0 < ?s" by simp
  have ax: "\<bar>x\<bar> = of_int \<bar>m\<bar> * ?s"
    using s by (simp add: assms(4) abs_mult)
  have "(of_int (int b ^ (p - 1)) :: rat) \<le> of_int \<bar>m\<bar>"
    using assms(5) by (simp only: of_int_le_iff)
  then have lower: "of_nat b ^ (p - 1) * ?s \<le> \<bar>x\<bar>"
    unfolding ax using s by (intro mult_right_mono) simp_all
  have "(of_int \<bar>m\<bar> :: rat) < of_int (int b ^ p)"
    using assms(6) by (simp only: of_int_less_iff)
  then have upper: "\<bar>x\<bar> < of_nat b ^ p * ?s"
    unfolding ax using s by (intro mult_strict_right_mono) simp_all
  have "round_to b p lo hi x = of_int m * ?s"
    using assms(1-3) lower upper s by (intro round_to_value) (simp_all add: assms(4))
  then show ?thesis by (simp add: assms(4))
qed

subsection \<open>The two arithmetics on example values\<close>

text \<open>
  Where both operations round: the \<^verbatim>\<open>float\<close> nearest to 0.35 subtracted from 1.5 gives the
  \<^verbatim>\<open>float\<close> nearest to 1.15, just below it, and the product with 100 stays below 115; a
  \<^verbatim>\<open>Decimal\<close> of 29 digits loses its last digit in the subtraction.
\<close>

lemma py_float_rounds:
  "num_sub py_float (3 / 2) (3152519739159347 / 9007199254740992)
     = 2589569785738035 / 2251799813685248"
  "num_mul py_float (2589569785738035 / 2251799813685248) 100
     = 8092405580431359 / 70368744177664"
  "py_int_of_num (8092405580431359 / 70368744177664) = 114"
  "py_int_of_num ((3 / 2 - 3152519739159347 / 9007199254740992) * 100) = 115"
proof -
  show "num_sub py_float (3 / 2) (3152519739159347 / 9007199254740992)
     = 2589569785738035 / 2251799813685248"
    using round_to_value [of 2 "- 1074" "- 52" 971 53
        "3 / 2 - 3152519739159347 / 9007199254740992" 5179139571476070]
    by (simp add: py_float_def)
  have h: "round_to 2 53 (- 1074) 971 100 = 100"
    using round_to_exact [of 2 "- 1074" "- 46" 971 100 7036874417766400 53] by simp
  show "num_mul py_float (2589569785738035 / 2251799813685248) 100
     = 8092405580431359 / 70368744177664"
    using round_to_value [of 2 "- 1074" "- 46" 971 53
        "2589569785738035 / 2251799813685248 * 100" 8092405580431359] h
    by (simp add: py_float_def)
  have "\<lfloor>8092405580431359 / 70368744177664 :: rat\<rfloor> = 114"
    by (rule floor_unique) simp_all
  then show "py_int_of_num (8092405580431359 / 70368744177664) = 114"
    by (simp add: py_int_of_num_def)
  have "\<lfloor>(3 / 2 - 3152519739159347 / 9007199254740992) * 100 :: rat\<rfloor> = 115"
    by (rule floor_unique) simp_all
  then show "py_int_of_num ((3 / 2 - 3152519739159347 / 9007199254740992) * 100) = 115"
    by (simp add: py_int_of_num_def)
qed

lemma py_decimal_rounds:
  "num_sub py_decimal (12345678901234567890123456785 / 100) 0
     = 1234567890123456789012345678 / 10"
  "num_mul py_decimal (1234567890123456789012345678 / 10) 100
     = 12345678901234567890123456780"
proof -
  show "num_sub py_decimal (12345678901234567890123456785 / 100) 0
     = 1234567890123456789012345678 / 10"
    using round_to_value [of 10 "- 1000026" "- 1" 999972 28
        "12345678901234567890123456785 / 100" 1234567890123456789012345678]
    by (simp add: py_decimal_def)
  show "num_mul py_decimal (1234567890123456789012345678 / 10) 100
     = 12345678901234567890123456780"
    using round_to_exact [of 10 "- 1000026" 1 999972 12345678901234567890123456780
        1234567890123456789012345678 28]
    by (simp add: py_decimal_def)
qed

text \<open>The rows used as examples below: on them no operation of either type rounds.\<close>

lemma py_float_net_a: "num_mul py_float (num_sub py_float (10) (5 / 2)) 100 = 750"
proof -
  have d: "round_to 2 53 (- 1074) 971 (15 / 2) = 15 / 2"
    using round_to_exact [of 2 "- 1074" "- 50" 971 "15 / 2" 8444249301319680 53] by simp
  have h: "round_to 2 53 (- 1074) 971 (100) = 100"
    using round_to_exact [of 2 "- 1074" "- 46" 971 "100" 7036874417766400 53] by simp
  have v: "round_to 2 53 (- 1074) 971 (750) = 750"
    using round_to_exact [of 2 "- 1074" "- 43" 971 "750" 6597069766656000 53] by simp
  show ?thesis by (simp add: py_float_def d h v)
qed

lemma py_float_net_b: "num_mul py_float (num_sub py_float (- 5) (0)) 100 = - 500"
proof -
  have d: "round_to 2 53 (- 1074) 971 (- 5) = - 5"
    using round_to_exact [of 2 "- 1074" "- 50" 971 "- 5" "- 5629499534213120" 53] by simp
  have h: "round_to 2 53 (- 1074) 971 (100) = 100"
    using round_to_exact [of 2 "- 1074" "- 46" 971 "100" 7036874417766400 53] by simp
  have v: "round_to 2 53 (- 1074) 971 (- 500) = - 500"
    using round_to_exact [of 2 "- 1074" "- 44" 971 "- 500" "- 8796093022208000" 53] by simp
  show ?thesis by (simp add: py_float_def d h v)
qed

lemma py_float_net_c: "num_mul py_float (num_sub py_float (3) (1 / 2)) 100 = 250"
proof -
  have d: "round_to 2 53 (- 1074) 971 (5 / 2) = 5 / 2"
    using round_to_exact [of 2 "- 1074" "- 51" 971 "5 / 2" 5629499534213120 53] by simp
  have h: "round_to 2 53 (- 1074) 971 (100) = 100"
    using round_to_exact [of 2 "- 1074" "- 46" 971 "100" 7036874417766400 53] by simp
  have v: "round_to 2 53 (- 1074) 971 (250) = 250"
    using round_to_exact [of 2 "- 1074" "- 45" 971 "250" 8796093022208000 53] by simp
  show ?thesis by (simp add: py_float_def d h v)
qed

lemma py_float_net_d: "num_mul py_float (num_sub py_float (0) (3)) 100 = - 300"
proof -
  have d: "round_to 2 53 (- 1074) 971 (- 3) = - 3"
    using round_to_exact [of 2 "- 1074" "- 51" 971 "- 3" "- 6755399441055744" 53] by simp
  have h: "round_to 2 53 (- 1074) 971 (100) = 100"
    using round_to_exact [of 2 "- 1074" "- 46" 971 "100" 7036874417766400 53] by simp
  have v: "round_to 2 53 (- 1074) 971 (- 300) = - 300"
    using round_to_exact [of 2 "- 1074" "- 44" 971 "- 300" "- 5277655813324800" 53] by simp
  show ?thesis by (simp add: py_float_def d h v)
qed

lemma py_float_net_e: "num_mul py_float (num_sub py_float (3 / 16) (0)) 100 = 75 / 4"
proof -
  have d: "round_to 2 53 (- 1074) 971 (3 / 16) = 3 / 16"
    using round_to_exact [of 2 "- 1074" "- 55" 971 "3 / 16" 6755399441055744 53] by simp
  have h: "round_to 2 53 (- 1074) 971 (100) = 100"
    using round_to_exact [of 2 "- 1074" "- 46" 971 "100" 7036874417766400 53] by simp
  have v: "round_to 2 53 (- 1074) 971 (75 / 4) = 75 / 4"
    using round_to_exact [of 2 "- 1074" "- 48" 971 "75 / 4" 5277655813324800 53] by simp
  show ?thesis by (simp add: py_float_def d h v)
qed

lemma py_float_net_f: "num_mul py_float (num_sub py_float (- 1 / 128) (0)) 100 = - 25 / 32"
proof -
  have d: "round_to 2 53 (- 1074) 971 (- (1 / 128)) = - (1 / 128)"
    using round_to_exact [of 2 "- 1074" "- 59" 971 "- 1 / 128" "- 4503599627370496" 53] by simp
  have h: "round_to 2 53 (- 1074) 971 (100) = 100"
    using round_to_exact [of 2 "- 1074" "- 46" 971 "100" 7036874417766400 53] by simp
  have v: "round_to 2 53 (- 1074) 971 (- (25 / 32)) = - (25 / 32)"
    using round_to_exact [of 2 "- 1074" "- 53" 971 "- 25 / 32" "- 7036874417766400" 53] by simp
  show ?thesis by (simp add: py_float_def d h v)
qed

lemma py_decimal_net_a: "num_mul py_decimal (num_sub py_decimal (10) (5 / 2)) 100 = 750"
proof -
  have d: "round_to 10 28 (- 1000026) 999972 (15 / 2) = 15 / 2"
    using round_to_exact [of 10 "- 1000026" "- 27" 999972 "15 / 2" 7500000000000000000000000000 28] by simp
  have v: "round_to 10 28 (- 1000026) 999972 (750) = 750"
    using round_to_exact [of 10 "- 1000026" "- 25" 999972 "750" 7500000000000000000000000000 28] by simp
  show ?thesis by (simp add: py_decimal_def d v)
qed

lemma py_decimal_net_b: "num_mul py_decimal (num_sub py_decimal (- 5) (0)) 100 = - 500"
proof -
  have d: "round_to 10 28 (- 1000026) 999972 (- 5) = - 5"
    using round_to_exact [of 10 "- 1000026" "- 27" 999972 "- 5" "- 5000000000000000000000000000" 28] by simp
  have v: "round_to 10 28 (- 1000026) 999972 (- 500) = - 500"
    using round_to_exact [of 10 "- 1000026" "- 25" 999972 "- 500" "- 5000000000000000000000000000" 28] by simp
  show ?thesis by (simp add: py_decimal_def d v)
qed

lemma py_decimal_net_c: "num_mul py_decimal (num_sub py_decimal (3) (1 / 2)) 100 = 250"
proof -
  have d: "round_to 10 28 (- 1000026) 999972 (5 / 2) = 5 / 2"
    using round_to_exact [of 10 "- 1000026" "- 27" 999972 "5 / 2" 2500000000000000000000000000 28] by simp
  have v: "round_to 10 28 (- 1000026) 999972 (250) = 250"
    using round_to_exact [of 10 "- 1000026" "- 25" 999972 "250" 2500000000000000000000000000 28] by simp
  show ?thesis by (simp add: py_decimal_def d v)
qed

lemma py_decimal_net_d: "num_mul py_decimal (num_sub py_decimal (0) (3)) 100 = - 300"
proof -
  have d: "round_to 10 28 (- 1000026) 999972 (- 3) = - 3"
    using round_to_exact [of 10 "- 1000026" "- 27" 999972 "- 3" "- 3000000000000000000000000000" 28] by simp
  have v: "round_to 10 28 (- 1000026) 999972 (- 300) = - 300"
    using round_to_exact [of 10 "- 1000026" "- 25" 999972 "- 300" "- 3000000000000000000000000000" 28] by simp
  show ?thesis by (simp add: py_decimal_def d v)
qed

lemma py_decimal_net_e: "num_mul py_decimal (num_sub py_decimal (3 / 16) (0)) 100 = 75 / 4"
proof -
  have d: "round_to 10 28 (- 1000026) 999972 (3 / 16) = 3 / 16"
    using round_to_exact [of 10 "- 1000026" "- 28" 999972 "3 / 16" 1875000000000000000000000000 28] by simp
  have v: "round_to 10 28 (- 1000026) 999972 (75 / 4) = 75 / 4"
    using round_to_exact [of 10 "- 1000026" "- 26" 999972 "75 / 4" 1875000000000000000000000000 28] by simp
  show ?thesis by (simp add: py_decimal_def d v)
qed

lemma py_decimal_net_f: "num_mul py_decimal (num_sub py_decimal (- 1 / 128) (0)) 100 = - 25 / 32"
proof -
  have d: "round_to 10 28 (- 1000026) 999972 (- (1 / 128)) = - (1 / 128)"
    using round_to_exact [of 10 "- 1000026" "- 30" 999972 "- 1 / 128" "- 7812500000000000000000000000" 28] by simp
  have v: "round_to 10 28 (- 1000026) 999972 (- (25 / 32)) = - (25 / 32)"
    using round_to_exact [of 10 "- 1000026" "- 28" 999972 "- 25 / 32" "- 7812500000000000000000000000" 28] by simp
  show ?thesis by (simp add: py_decimal_def d v)
qed

lemma example_nets_float:
  "computed_net py_float \<lparr>row_id = i, account_label = l, balance = 10, fine = 5 / 2\<rparr> = 750"
  "computed_net py_float \<lparr>row_id = i, account_label = l, balance = - 5, fine = 0\<rparr> = - 500"
  "computed_net py_float \<lparr>row_id = i, account_label = l, balance = 3, fine = 1 / 2\<rparr> = 250"
  "computed_net py_float \<lparr>row_id = i, account_label = l, balance = 0, fine = 3\<rparr> = - 300"
  "computed_net py_float \<lparr>row_id = i, account_label = l, balance = 3 / 16, fine = 0\<rparr> = 75 / 4"
  "computed_net py_float \<lparr>row_id = i, account_label = l, balance = - (1 / 128), fine = 0\<rparr>
     = - (25 / 32)"
  using py_float_net_a py_float_net_b py_float_net_c py_float_net_d py_float_net_e py_float_net_f
  by (simp_all add: computed_net_def)

lemma example_nets_decimal:
  "computed_net py_decimal \<lparr>row_id = i, account_label = l, balance = 10, fine = 5 / 2\<rparr> = 750"
  "computed_net py_decimal \<lparr>row_id = i, account_label = l, balance = - 5, fine = 0\<rparr> = - 500"
  "computed_net py_decimal \<lparr>row_id = i, account_label = l, balance = 3, fine = 1 / 2\<rparr> = 250"
  "computed_net py_decimal \<lparr>row_id = i, account_label = l, balance = 0, fine = 3\<rparr> = - 300"
  "computed_net py_decimal \<lparr>row_id = i, account_label = l, balance = 3 / 16, fine = 0\<rparr> = 75 / 4"
  "computed_net py_decimal \<lparr>row_id = i, account_label = l, balance = - (1 / 128), fine = 0\<rparr>
     = - (25 / 32)"
  using py_decimal_net_a py_decimal_net_b py_decimal_net_c py_decimal_net_d py_decimal_net_e
    py_decimal_net_f
  by (simp_all add: computed_net_def)

lemma truncated_examples:
  "py_int_of_num 750 = 750" "py_int_of_num (- 500) = - 500" "py_int_of_num 250 = 250"
  "py_int_of_num (- 300) = - 300" "py_int_of_num (75 / 4) = 18"
  "py_int_of_num (- (25 / 32)) = 0"
proof -
  have "\<lfloor>75 / 4 :: rat\<rfloor> = 18" by (rule floor_unique) simp_all
  then show "py_int_of_num (75 / 4) = 18" by (simp add: py_int_of_num_def)
  have "\<lceil>- (25 / 32) :: rat\<rceil> = 0" by (rule ceiling_unique) simp_all
  then show "py_int_of_num (- (25 / 32)) = 0" by (simp add: py_int_of_num_def)
qed (simp_all add: py_int_of_num_def)

lemmas net_defs = net_amount_def example_nets_float example_nets_decimal truncated_examples

subsection \<open>Rows that print nothing\<close>

text \<open>
  C3. A row whose account number (the label without its first character) is the literal
  \<^verbatim>\<open>OUDESANNEVANDERLINDEN\<close>, or whose account number parses to an integer below 1000 while
  the label starts with \<^verbatim>\<open>g\<close>, prints no statement.
\<close>

theorem excluded_row_prints_nothing:
  assumes "account_number r = ''OUDESANNEVANDERLINDEN''
           \<or> (\<exists>n. py_int (account_number r) = Some n \<and> n < 1000
                    \<and> startswith (account_label r) ''g'')"
  shows "sync_row ar r = []"
  using assms sync_row_sentinel sync_row_low_gewis by blast

theorem excluded_row_prints_nothing_witness:
  "account_number \<lparr>row_id = 9, account_label = ''gOUDESANNEVANDERLINDEN'', balance = 1, fine = 0\<rparr>
     = ''OUDESANNEVANDERLINDEN''
   \<and> sync_row py_float \<lparr>row_id = 9, account_label = ''gOUDESANNEVANDERLINDEN'', balance = 1, fine = 0\<rparr> = []
   \<and> py_int (account_number \<lparr>row_id = 3, account_label = ''g42'', balance = 1, fine = 0\<rparr>) = Some 42
   \<and> (42::int) < 1000
   \<and> startswith (account_label \<lparr>row_id = 3, account_label = ''g42'', balance = 1, fine = 0\<rparr>) ''g''
   \<and> sync_row py_float \<lparr>row_id = 3, account_label = ''g42'', balance = 1, fine = 0\<rparr> = []"
proof -
  let ?a = "\<lparr>row_id = 9, account_label = ''gOUDESANNEVANDERLINDEN'', balance = 1, fine = 0\<rparr>"
  let ?b = "\<lparr>row_id = 3, account_label = ''g42'', balance = 1, fine = 0\<rparr>"
  have a: "account_number ?a = ''OUDESANNEVANDERLINDEN''"
    by (simp add: account_number_def)
  have b: "py_int (account_number ?b) = Some 42 \<and> (42::int) < 1000
           \<and> startswith (account_label ?b) ''g''"
    by (simp add: parse_defs)
  from b have b': "\<exists>n. py_int (account_number ?b) = Some n \<and> n < 1000
                     \<and> startswith (account_label ?b) ''g''"
    by blast
  show ?thesis
    using a b excluded_row_prints_nothing [OF disjI1 [OF a]]
      excluded_row_prints_nothing [OF disjI2 [OF b']]
    by simp
qed

text \<open>
  C4. A row whose account number does not parse as an integer prints nothing, and the
  rows before and after it are processed as if it were not there: the \<^verbatim>\<open>ValueError\<close> of
  \<^verbatim>\<open>int\<close> is caught inside the loop body and never leaves \<open>sync_transfers\<close>, whose result is
  a list of lines for every input.
\<close>

theorem unparsed_row_skipped:
  assumes "py_int (account_number r) = None"
  shows "sync_row ar r = []
         \<and> sync_transfers ar (before @ r # after) = sync_transfers ar (before @ after)"
  using sync_row_unparsed [OF assms]
  by (simp add: sync_transfers_def sync_rows_append)

theorem unparsed_row_skipped_witness:
  "py_int (account_number \<lparr>row_id = 5, account_label = ''g12a4'', balance = 1, fine = 0\<rparr>) = None
   \<and> sync_row py_float \<lparr>row_id = 5, account_label = ''g12a4'', balance = 1, fine = 0\<rparr> = []
   \<and> sync_transfers py_float
        ([\<lparr>row_id = 7, account_label = ''e7'', balance = - 5, fine = 0\<rparr>]
         @ \<lparr>row_id = 5, account_label = ''g12a4'', balance = 1, fine = 0\<rparr>
         # [\<lparr>row_id = 42, account_label = ''g5000'', balance = 10, fine = 5 / 2\<rparr>])
     = sync_transfers py_float
        ([\<lparr>row_id = 7, account_label = ''e7'', balance = - 5, fine = 0\<rparr>]
         @ [\<lparr>row_id = 42, account_label = ''g5000'', balance = 10, fine = 5 / 2\<rparr>])"
proof -
  have h: "py_int (account_number \<lparr>row_id = 5, account_label = ''g12a4'', balance = 1, fine = 0\<rparr>)
           = None"
    by (simp add: parse_defs)
  show ?thesis
    using h unparsed_row_skipped [OF h] by blast
qed

subsection \<open>The cleanup statement\<close>

text \<open>
  C5. For every input, the empty one included, the first printed line is the cleanup
  \<^verbatim>\<open>DELETE\<close> statement and it occurs exactly once in the output, so no line of a row comes
  before it.
\<close>

theorem cleanup_first_and_once:
  "sync_transfers ar [] = [cleanup_statement]
   \<and> sync_transfers ar rs = cleanup_statement # tl (sync_transfers ar rs)
   \<and> count_list (sync_transfers ar rs) cleanup_statement = 1"
  using cleanup_not_in_sync_rows [of ar rs]
  by (simp add: sync_transfers_def count_list_0_iff)

subsection \<open>The sentinel comparison\<close>

text \<open>
  C9. The comparison of the account number with \<^verbatim>\<open>OUDESANNEVANDERLINDEN\<close> is redundant: the
  generator without it prints the same lines for every input, because that text does not
  parse as an integer and such a row has already been skipped.
\<close>

theorem sentinel_check_redundant: "sync_transfers_no_sentinel ar rs = sync_transfers ar rs"
  by (simp add: sync_transfers_no_sentinel_def sync_transfers_def sync_rows_no_sentinel_eq)

subsection \<open>Rows of externally managed accounts\<close>

text \<open>
  C10. For a label that starts with \<^verbatim>\<open>e\<close> and whose account number parses as an integer,
  the printed statement does not depend on that number: two rows that differ only in the
  (parseable) account number print the same line.
\<close>

theorem user_row_ignores_account_number:
  assumes "py_int s \<noteq> None" and "py_int s' \<noteq> None"
  shows "sync_row ar (r\<lparr>account_label := CHR ''e'' # s\<rparr>)
         = sync_row ar (r\<lparr>account_label := CHR ''e'' # s'\<rparr>)"
proof -
  have *: "sync_row ar (r\<lparr>account_label := CHR ''e'' # t\<rparr>)
           = [insert_text (if 0 \<le> net_amount ar r
                then \<lparr>fromId = Null, toId = Resolved_id, amount = net_amount ar r,
                      resolved_by = User (row_id r)\<rparr>
                else \<lparr>fromId = Resolved_id, toId = Null, amount = - net_amount ar r,
                      resolved_by = User (row_id r)\<rparr>)]"
    if "py_int t \<noteq> None" for t
  proof -
    let ?r = "r\<lparr>account_label := CHR ''e'' # t\<rparr>"
    from that obtain n where n: "py_int (account_number ?r) = Some n"
      by (auto simp: account_number_def)
    have e: "startswith (account_label ?r) ''e''"
      by (simp add: startswith_def)
    have net: "net_amount ar ?r = net_amount ar r"
      by (simp add: net_amount_def computed_net_def)
    show ?thesis
      using sync_row_user_credit [OF n e] sync_row_user_debit [OF n e] net
      by (cases "0 \<le> net_amount ar r") simp_all
  qed
  from * [OF assms(1)] * [OF assms(2)] show ?thesis by simp
qed

theorem user_row_ignores_account_number_witness:
  "py_int ''7'' \<noteq> None \<and> py_int ''-123456'' \<noteq> None
   \<and> sync_row py_float \<lparr>row_id = 7, account_label = ''e7'', balance = - 5, fine = 0\<rparr>
     = sync_row py_float \<lparr>row_id = 7, account_label = ''e-123456'', balance = - 5, fine = 0\<rparr>"
proof -
  have a: "py_int ''7'' \<noteq> None" by (simp add: parse_defs)
  have b: "py_int ''-123456'' \<noteq> None" by (simp add: parse_defs)
  show ?thesis
    using a b
      user_row_ignores_account_number [OF a b,
        of py_float "\<lparr>row_id = 7, account_label = ''e7'', balance = - 5, fine = 0\<rparr>"]
    by simp
qed

subsection \<open>Direction and amount of a transfer\<close>




text \<open>
  C7. Every printed line after the cleanup statement is an insert statement whose amount
  field is an integer that is not negative.
\<close>

theorem amount_nonnegative:
  "\<forall>l \<in> set (tl (sync_transfers ar rs)).
     (\<exists>s. l = insert_text s) \<and> (\<forall>s. l = insert_text s \<longrightarrow> 0 \<le> amount s)"
proof
  fix l
  assume "l \<in> set (tl (sync_transfers ar rs))"
  then have "l \<in> set (sync_rows ar rs)" by (simp add: sync_transfers_def)
  then obtain s where s: "l = insert_text s" and a: "0 \<le> amount s"
    using sync_rows_line by blast
  have "0 \<le> amount s'" if "l = insert_text s'" for s'
    using that s a insert_text_inj [of s s'] by simp
  with s show "(\<exists>s. l = insert_text s) \<and> (\<forall>s. l = insert_text s \<longrightarrow> 0 \<le> amount s)"
    by blast
qed

theorem amount_nonnegative_witness:
  "insert_text \<lparr>fromId = Resolved_id, toId = Null, amount = 300, resolved_by = Gewis_user ''2000''\<rparr>
     \<in> set (tl (sync_transfers py_float [\<lparr>row_id = 5, account_label = ''g2000'', balance = 0, fine = 3\<rparr>]))
   \<and> (\<exists>s. insert_text \<lparr>fromId = Resolved_id, toId = Null, amount = 300,
              resolved_by = Gewis_user ''2000''\<rparr> = insert_text s)
   \<and> 0 \<le> amount \<lparr>fromId = Resolved_id, toId = Null, amount = 300,
              resolved_by = Gewis_user ''2000''\<rparr>"
proof -
  let ?r = "\<lparr>row_id = 5, account_label = ''g2000'', balance = 0, fine = 3\<rparr>"
  have p: "py_int (account_number ?r) = Some 2000" by (simp add: parse_defs)
  have g: "startswith (account_label ?r) ''g''" by (simp add: startswith_def)
  have n: "net_amount py_float ?r = - 300" by (simp add: net_defs)
  have "sync_row py_float ?r = [insert_text \<lparr>fromId = Resolved_id, toId = Null, amount = 300,
      resolved_by = Gewis_user ''2000''\<rparr>]"
    using sync_row_gewis_debit [OF p _ g, of py_float] n by (simp add: account_number_def)
  then have m: "insert_text \<lparr>fromId = Resolved_id, toId = Null, amount = 300,
      resolved_by = Gewis_user ''2000''\<rparr> \<in> set (tl (sync_transfers py_float [?r]))"
    by (simp add: sync_transfers_def)
  show ?thesis
    using m amount_nonnegative [of py_float "[?r]"] by blast
qed




subsection \<open>The example rows of the specification\<close>

text \<open>
  C2, as the code has it. The row \<^verbatim>\<open>(id=42, account_label="g500", balance=10.00, fine=2.50)\<close>
  prints no statement: 500 is below 1000 and the label starts with \<^verbatim>\<open>g\<close>. The same row
  with the label \<^verbatim>\<open>g5000\<close> prints one statement with \<open>fromId\<close> \<^verbatim>\<open>NULL\<close>, \<open>toId\<close> found by
  \<^verbatim>\<open>g.gewisId = 5000\<close>, and amount 750.
\<close>

theorem gewis_example_row:
  "sync_row py_float \<lparr>row_id = 42, account_label = ''g500'', balance = 10, fine = 5 / 2\<rparr> = []
   \<and> sync_row py_decimal \<lparr>row_id = 42, account_label = ''g500'', balance = 10, fine = 5 / 2\<rparr> = []
   \<and> sync_row py_float \<lparr>row_id = 42, account_label = ''g5000'', balance = 10, fine = 5 / 2\<rparr>
       = [insert_text \<lparr>fromId = Null, toId = Resolved_id, amount = 750,
            resolved_by = Gewis_user ''5000''\<rparr>]
   \<and> sync_row py_decimal \<lparr>row_id = 42, account_label = ''g5000'', balance = 10, fine = 5 / 2\<rparr>
       = [insert_text \<lparr>fromId = Null, toId = Resolved_id, amount = 750,
            resolved_by = Gewis_user ''5000''\<rparr>]
   \<and> insert_text \<lparr>fromId = Null, toId = Resolved_id, amount = 750,
        resolved_by = Gewis_user ''5000''\<rparr>
       = ''insert into transfer(`version`, createdAt, updatedAt, fromId, toId, amount, description) SELECT 0, '2022-07-01 00:00:00.000000', '2022-07-01 00:00:00.000000', NULL, g.userId, 750, 'Initial transfer from SuSOS' FROM gewis_user AS g WHERE g.gewisId = 5000;''"
proof -
  let ?a = "\<lparr>row_id = 42, account_label = ''g500'', balance = 10, fine = 5 / 2\<rparr>"
  let ?b = "\<lparr>row_id = 42, account_label = ''g5000'', balance = 10, fine = 5 / 2\<rparr>"
  have pa: "py_int (account_number ?a) = Some 500" by (simp add: parse_defs)
  have ga: "startswith (account_label ?a) ''g''" by (simp add: startswith_def)
  have a: "sync_row ar ?a = []" for ar using sync_row_low_gewis [OF pa _ ga] by simp
  have pb: "py_int (account_number ?b) = Some 5000" by (simp add: parse_defs)
  have gb: "startswith (account_label ?b) ''g''" by (simp add: startswith_def)
  have nf: "net_amount py_float ?b = 750" by (simp add: net_defs)
  have nd: "net_amount py_decimal ?b = 750" by (simp add: net_defs)
  have bf: "sync_row py_float ?b = [insert_text \<lparr>fromId = Null, toId = Resolved_id,
      amount = 750, resolved_by = Gewis_user ''5000''\<rparr>]"
    using sync_row_gewis_credit [OF pb _ gb, of py_float] nf by (simp add: account_number_def)
  have bd: "sync_row py_decimal ?b = [insert_text \<lparr>fromId = Null, toId = Resolved_id,
      amount = 750, resolved_by = Gewis_user ''5000''\<rparr>]"
    using sync_row_gewis_credit [OF pb _ gb, of py_decimal] nd by (simp add: account_number_def)
  have rendered: "insert_text \<lparr>fromId = Null, toId = Resolved_id, amount = 750,
        resolved_by = Gewis_user ''5000''\<rparr>
       = ''insert into transfer(`version`, createdAt, updatedAt, fromId, toId, amount, description) SELECT 0, '2022-07-01 00:00:00.000000', '2022-07-01 00:00:00.000000', NULL, g.userId, 750, 'Initial transfer from SuSOS' FROM gewis_user AS g WHERE g.gewisId = 5000;''"
    by (simp add: insert_text_def print_defs)
  from a [of py_float] a [of py_decimal] bf bd rendered show ?thesis by blast
qed

text \<open>
  C2, as the specification words it, fails: for its example row the whole output is the
  cleanup statement alone, under either arithmetic.
\<close>

theorem gewis_example_row_counterexample:
  "sync_transfers py_float
       [\<lparr>row_id = 42, account_label = ''g500'', balance = 10, fine = 5 / 2\<rparr>]
     = [cleanup_statement]
   \<and> sync_transfers py_decimal
       [\<lparr>row_id = 42, account_label = ''g500'', balance = 10, fine = 5 / 2\<rparr>]
     = [cleanup_statement]
   \<and> sync_transfers py_float
       [\<lparr>row_id = 42, account_label = ''g500'', balance = 10, fine = 5 / 2\<rparr>]
     \<noteq> [cleanup_statement,
         insert_text \<lparr>fromId = Null, toId = Resolved_id, amount = 750,
           resolved_by = Gewis_user ''500''\<rparr>]
   \<and> sync_transfers py_decimal
       [\<lparr>row_id = 42, account_label = ''g500'', balance = 10, fine = 5 / 2\<rparr>]
     \<noteq> [cleanup_statement,
         insert_text \<lparr>fromId = Null, toId = Resolved_id, amount = 750,
           resolved_by = Gewis_user ''500''\<rparr>]"
proof -
  let ?a = "\<lparr>row_id = 42, account_label = ''g500'', balance = 10, fine = 5 / 2\<rparr>"
  have pa: "py_int (account_number ?a) = Some 500" by (simp add: parse_defs)
  have ga: "startswith (account_label ?a) ''g''" by (simp add: startswith_def)
  have "sync_row ar ?a = []" for ar using sync_row_low_gewis [OF pa _ ga] by simp
  then show ?thesis by (simp add: sync_transfers_def)
qed

subsection \<open>How the counterparty is found\<close>




end
